theory Spec2Isabelle
  imports Main
begin

section \<open>Values, records and errors\<close>

text \<open>
  The dataset is what \<^verbatim>\<open>json.load\<close> returns: a list of dictionaries with string keys
  whose values are arbitrary JSON values. The program looks at a value in two ways only:
  \<^verbatim>\<open>isinstance(v, int)\<close> and, in the report, \<^verbatim>\<open>str(v)\<close> through an f-string. The
  scalars it can compute with are modelled exactly; a float, an array or an object is
  carried as \<open>POther\<close> with the text that \<^verbatim>\<open>str\<close> gives for it, which is all the program
  ever does with such a value.
\<close>

datatype pyval =
    PNone
  | PBool bool
  | PInt int
  | PStr string
  | POther string

type_synonym entry = "string \<rightharpoonup> pyval"

text \<open>
  The exceptions of the program: the \<^verbatim>\<open>ValueError\<close> it raises itself, and the two that
  the interpreter raises when the argument is not a list of dictionaries.
\<close>

datatype error = ValueError string | AttributeError | TypeError

text \<open>\<^verbatim>\<open>d.get(k)\<close>: the value stored under the key, \<^verbatim>\<open>None\<close> when the key is absent.\<close>

definition dict_get :: "entry \<Rightarrow> string \<Rightarrow> pyval" where
  "dict_get d k = (case d k of None \<Rightarrow> PNone | Some v \<Rightarrow> v)"

text \<open>
  \<^verbatim>\<open>isinstance(v, int)\<close>. In Python \<^verbatim>\<open>bool\<close> is a subclass of \<^verbatim>\<open>int\<close>, so the test
  holds of \<^verbatim>\<open>True\<close> and \<^verbatim>\<open>False\<close> as well.
\<close>

fun isinstance_int :: "pyval \<Rightarrow> bool" where
  "isinstance_int (PInt i) = True"
| "isinstance_int (PBool b) = True"
| "isinstance_int PNone = False"
| "isinstance_int (PStr s) = False"
| "isinstance_int (POther s) = False"

text \<open>
  The number an \<^verbatim>\<open>int\<close> instance compares as: \<^verbatim>\<open>True\<close> is 1 and \<^verbatim>\<open>False\<close> is 0. The
  program compares only values that passed \<^verbatim>\<open>isinstance(v, int)\<close>; the other equations
  are never reached from it.
\<close>

fun int_value :: "pyval \<Rightarrow> int" where
  "int_value (PInt i) = i"
| "int_value (PBool b) = (if b then 1 else 0)"
| "int_value PNone = 0"
| "int_value (PStr s) = 0"
| "int_value (POther s) = 0"

definition MIN_SECTION_ID :: int where
  "MIN_SECTION_ID = 100000"

definition MAX_SECTION_ID :: int where
  "MAX_SECTION_ID = 999999"

text \<open>
  An element of the \<^verbatim>\<open>invalid\<close> list: a dictionary with the keys \<^verbatim>\<open>sectionId\<close>,
  \<^verbatim>\<open>courseCode\<close>, \<^verbatim>\<open>sectionName\<close> and, for a type failure only, \<^verbatim>\<open>issue\<close>.
\<close>

record invalid_entry =
  ie_sectionId :: pyval
  ie_courseCode :: pyval
  ie_sectionName :: pyval
  ie_issue :: "pyval option"

text \<open>The dictionary that \<^verbatim>\<open>analyze_section_ids\<close> returns.\<close>

record stats =
  st_count :: int
  st_min :: pyval
  st_max :: pyval
  st_invalid :: "invalid_entry list"

section \<open>The validator\<close>

text \<open>The two lists that the loop of \<^verbatim>\<open>analyze_section_ids\<close> appends to.\<close>

record scan_state =
  section_ids :: "pyval list"
  invalid_entries :: "invalid_entry list"

definition init_state :: scan_state where
  "init_state = \<lparr>section_ids = [], invalid_entries = []\<rparr>"

definition type_issue :: string where
  "type_issue = ''Missing or non-integer sectionId''"

definition range_entry :: "entry \<Rightarrow> pyval \<Rightarrow> invalid_entry" where
  "range_entry entry section_id =
     \<lparr>ie_sectionId = section_id,
      ie_courseCode = dict_get entry ''courseCode'',
      ie_sectionName = dict_get entry ''sectionName'',
      ie_issue = None\<rparr>"

definition type_entry :: "entry \<Rightarrow> pyval \<Rightarrow> invalid_entry" where
  "type_entry entry section_id =
     \<lparr>ie_sectionId = section_id,
      ie_courseCode = dict_get entry ''courseCode'',
      ie_sectionName = dict_get entry ''sectionName'',
      ie_issue = Some (PStr type_issue)\<rparr>"

text \<open>One iteration of the loop body.\<close>

definition scan_entry :: "scan_state \<Rightarrow> entry \<Rightarrow> scan_state" where
  "scan_entry s entry =
     (let section_id = dict_get entry ''sectionId'' in
      if isinstance_int section_id then
        (let s1 = s\<lparr>section_ids := section_ids s @ [section_id]\<rparr> in
         if \<not> (MIN_SECTION_ID \<le> int_value section_id
               \<and> int_value section_id \<le> MAX_SECTION_ID)
         then s1\<lparr>invalid_entries := invalid_entries s1 @ [range_entry entry section_id]\<rparr>
         else s1)
      else s\<lparr>invalid_entries := invalid_entries s @ [type_entry entry section_id]\<rparr>)"

text \<open>\<^verbatim>\<open>for entry in data\<close>, from a given state.\<close>

fun scan :: "scan_state \<Rightarrow> entry list \<Rightarrow> scan_state" where
  "scan s [] = s"
| "scan s (entry # rest) = scan (scan_entry s entry) rest"

text \<open>
  \<^verbatim>\<open>min(xs)\<close> and \<^verbatim>\<open>max(xs)\<close> on a list: the first element is the candidate, a later
  element replaces it only when it is strictly smaller (strictly larger), so of several
  equal extremes the first is returned. Both raise \<^verbatim>\<open>ValueError\<close> on an empty list.
\<close>

fun min_from :: "pyval \<Rightarrow> pyval list \<Rightarrow> pyval" where
  "min_from cur [] = cur"
| "min_from cur (x # xs) = min_from (if int_value x < int_value cur then x else cur) xs"

fun max_from :: "pyval \<Rightarrow> pyval list \<Rightarrow> pyval" where
  "max_from cur [] = cur"
| "max_from cur (x # xs) = max_from (if int_value x > int_value cur then x else cur) xs"

fun py_min :: "pyval list \<Rightarrow> error + pyval" where
  "py_min [] = Inl (ValueError ''min() arg is an empty sequence'')"
| "py_min (x # xs) = Inr (min_from x xs)"

fun py_max :: "pyval list \<Rightarrow> error + pyval" where
  "py_max [] = Inl (ValueError ''max() arg is an empty sequence'')"
| "py_max (x # xs) = Inr (max_from x xs)"

definition no_valid_msg :: string where
  "no_valid_msg = ''No valid sectionId values found in the dataset.''"

text \<open>The code after the loop: the emptiness guard and the returned dictionary.\<close>

definition summarize :: "scan_state \<Rightarrow> error + stats" where
  "summarize s =
     (if section_ids s = [] then Inl (ValueError no_valid_msg)
      else
        (case py_min (section_ids s) of
           Inl e \<Rightarrow> Inl e
         | Inr lo \<Rightarrow>
             (case py_max (section_ids s) of
                Inl e \<Rightarrow> Inl e
              | Inr hi \<Rightarrow>
                  Inr \<lparr>st_count = int (length (section_ids s)),
                       st_min = lo,
                       st_max = hi,
                       st_invalid = invalid_entries s\<rparr>)))"

definition analyze_section_ids :: "entry list \<Rightarrow> error + stats" where
  "analyze_section_ids data = summarize (scan init_state data)"

subsection \<open>The same function over a store\<close>

text \<open>
  To speak about effects on the input, the function is also given over a store of Python
  objects: a heap of lists and dictionaries, addressed by position. A variable, a list
  element or a dictionary value holds an immutable scalar or a reference to an object.
  An object is created at the end of the heap, and a list is changed in place.
\<close>

type_synonym addr = nat

datatype cell = Val pyval | Ref addr

datatype obj = ListObj "cell list" | DictObj "(string \<times> cell) list"

type_synonym heap = "obj list"

text \<open>How a call ends: an exception or the address of the returned dictionary, and the heap.\<close>

datatype outcome = Raised error heap | Returned addr heap

definition lookup :: "heap \<Rightarrow> addr \<Rightarrow> obj option" where
  "lookup h a = (if a < length h then Some (h ! a) else None)"

definition alloc :: "obj \<Rightarrow> heap \<Rightarrow> addr \<times> heap" where
  "alloc ob h = (length h, h @ [ob])"

text \<open>\<^verbatim>\<open>xs.append(c)\<close> and \<^verbatim>\<open>entry.get(k)\<close>; only a list has the one and only a
  dictionary the other.\<close>

definition list_append :: "addr \<Rightarrow> cell \<Rightarrow> heap \<Rightarrow> (error \<times> heap) + heap" where
  "list_append a c h =
     (case lookup h a of
        Some (ListObj cs) \<Rightarrow> Inr (h[a := ListObj (cs @ [c])])
      | _ \<Rightarrow> Inl (AttributeError, h))"

definition cell_get :: "heap \<Rightarrow> cell \<Rightarrow> string \<Rightarrow> error + cell" where
  "cell_get h entry k =
     (case entry of
        Val v \<Rightarrow> Inl AttributeError
      | Ref a \<Rightarrow>
          (case lookup h a of
             Some (DictObj kvs) \<Rightarrow>
               Inr (case map_of kvs k of None \<Rightarrow> Val PNone | Some c \<Rightarrow> c)
           | _ \<Rightarrow> Inl AttributeError))"

fun cell_isinstance_int :: "cell \<Rightarrow> bool" where
  "cell_isinstance_int (Val v) = isinstance_int v"
| "cell_isinstance_int (Ref a) = False"

fun cell_int :: "cell \<Rightarrow> int" where
  "cell_int (Val v) = int_value v"
| "cell_int (Ref a) = 0"

text \<open>The loop body: the same statements as in \<open>scan_entry\<close>, on the heap.\<close>

definition heap_body :: "addr \<Rightarrow> addr \<Rightarrow> cell \<Rightarrow> heap \<Rightarrow> (error \<times> heap) + heap" where
  "heap_body ids_a inv_a entry h =
     (case cell_get h entry ''sectionId'' of
        Inl e \<Rightarrow> Inl (e, h)
      | Inr section_id \<Rightarrow>
          if cell_isinstance_int section_id then
            (case list_append ids_a section_id h of
               Inl eh \<Rightarrow> Inl eh
             | Inr h1 \<Rightarrow>
                 if \<not> (MIN_SECTION_ID \<le> cell_int section_id
                       \<and> cell_int section_id \<le> MAX_SECTION_ID)
                 then
                   (case cell_get h1 entry ''courseCode'' of
                      Inl e \<Rightarrow> Inl (e, h1)
                    | Inr cc \<Rightarrow>
                        (case cell_get h1 entry ''sectionName'' of
                           Inl e \<Rightarrow> Inl (e, h1)
                         | Inr sn \<Rightarrow>
                             (case alloc (DictObj [(''sectionId'', section_id),
                                                   (''courseCode'', cc),
                                                   (''sectionName'', sn)]) h1 of
                                (a, h2) \<Rightarrow> list_append inv_a (Ref a) h2)))
                 else Inr h1)
          else
            (case cell_get h entry ''courseCode'' of
               Inl e \<Rightarrow> Inl (e, h)
             | Inr cc \<Rightarrow>
                 (case cell_get h entry ''sectionName'' of
                    Inl e \<Rightarrow> Inl (e, h)
                  | Inr sn \<Rightarrow>
                      (case alloc (DictObj [(''sectionId'', section_id),
                                            (''courseCode'', cc),
                                            (''sectionName'', sn),
                                            (''issue'', Val (PStr type_issue))]) h of
                         (a, h2) \<Rightarrow> list_append inv_a (Ref a) h2))))"

text \<open>
  \<^verbatim>\<open>for entry in data\<close>: the iterator of a list compares its position with the length
  the list has now, before every iteration, so a loop over a list that grows need not end,
  and the loop is a partial function. Iterating a dictionary gives its keys, which are
  strings and have no \<^verbatim>\<open>get\<close>.
\<close>

partial_function (option)
  heap_loop :: "addr \<Rightarrow> addr \<Rightarrow> addr \<Rightarrow> nat \<Rightarrow> heap \<Rightarrow> ((error \<times> heap) + heap) option"
where
  "heap_loop d ids_a inv_a i h =
     (case lookup h d of
        Some (ListObj cells) \<Rightarrow>
          if i < length cells then
            (case heap_body ids_a inv_a (cells ! i) h of
               Inl eh \<Rightarrow> Some (Inl eh)
             | Inr h' \<Rightarrow> heap_loop d ids_a inv_a (Suc i) h')
          else Some (Inr h)
      | Some (DictObj kvs) \<Rightarrow>
          if kvs = [] then Some (Inr h) else Some (Inl (AttributeError, h))
      | None \<Rightarrow> Some (Inl (TypeError, h)))"

declare heap_loop.simps [code]

text \<open>The code after the loop, and the whole function.\<close>

fun cell_min_from :: "cell \<Rightarrow> cell list \<Rightarrow> cell" where
  "cell_min_from cur [] = cur"
| "cell_min_from cur (x # xs) = cell_min_from (if cell_int x < cell_int cur then x else cur) xs"

fun cell_max_from :: "cell \<Rightarrow> cell list \<Rightarrow> cell" where
  "cell_max_from cur [] = cur"
| "cell_max_from cur (x # xs) = cell_max_from (if cell_int x > cell_int cur then x else cur) xs"

definition heap_summarize :: "addr \<Rightarrow> addr \<Rightarrow> heap \<Rightarrow> outcome" where
  "heap_summarize ids_a inv_a h =
     (case lookup h ids_a of
        Some (ListObj []) \<Rightarrow> Raised (ValueError no_valid_msg) h
      | Some (ListObj (x # xs)) \<Rightarrow>
          (case alloc (DictObj [(''count'', Val (PInt (int (length (x # xs))))),
                                (''min'', cell_min_from x xs),
                                (''max'', cell_max_from x xs),
                                (''invalid'', Ref inv_a)]) h of
             (a, h') \<Rightarrow> Returned a h')
      | _ \<Rightarrow> Raised TypeError h)"

definition analyze_heap :: "addr \<Rightarrow> heap \<Rightarrow> outcome option" where
  "analyze_heap d h =
     (case alloc (ListObj []) h of
        (ids_a, h1) \<Rightarrow>
          (case alloc (ListObj []) h1 of
             (inv_a, h2) \<Rightarrow>
               (case heap_loop d ids_a inv_a 0 h2 of
                  None \<Rightarrow> None
                | Some (Inl (e, h3)) \<Rightarrow> Some (Raised e h3)
                | Some (Inr h3) \<Rightarrow> Some (heap_summarize ids_a inv_a h3))))"

text \<open>
  Reading a heap: the dataset at an address, when the object there is a list of
  references to dictionaries of scalars, and the statistics at an address.
\<close>

fun cell_val :: "cell \<Rightarrow> pyval" where
  "cell_val (Val v) = v"
| "cell_val (Ref a) = PNone"

fun is_val :: "cell \<Rightarrow> bool" where
  "is_val (Val v) = True"
| "is_val (Ref a) = False"

definition entry_of :: "(string \<times> cell) list \<Rightarrow> entry" where
  "entry_of kvs = (\<lambda>k. map_option cell_val (map_of kvs k))"

definition record_at :: "heap \<Rightarrow> cell \<Rightarrow> entry option" where
  "record_at h c =
     (case c of
        Val v \<Rightarrow> None
      | Ref a \<Rightarrow>
          (case lookup h a of
             Some (DictObj kvs) \<Rightarrow>
               if list_all (\<lambda>kv. is_val (snd kv)) kvs then Some (entry_of kvs) else None
           | _ \<Rightarrow> None))"

definition dataset_at :: "heap \<Rightarrow> addr \<Rightarrow> entry list option" where
  "dataset_at h d =
     (case lookup h d of
        Some (ListObj cells) \<Rightarrow> those (map (record_at h) cells)
      | _ \<Rightarrow> None)"

definition dict_field :: "(string \<times> cell) list \<Rightarrow> string \<Rightarrow> pyval" where
  "dict_field kvs k = (case map_of kvs k of None \<Rightarrow> PNone | Some c \<Rightarrow> cell_val c)"

definition invalid_entry_at :: "heap \<Rightarrow> cell \<Rightarrow> invalid_entry option" where
  "invalid_entry_at h c =
     (case c of
        Val v \<Rightarrow> None
      | Ref a \<Rightarrow>
          (case lookup h a of
             Some (DictObj kvs) \<Rightarrow>
               Some \<lparr>ie_sectionId = dict_field kvs ''sectionId'',
                     ie_courseCode = dict_field kvs ''courseCode'',
                     ie_sectionName = dict_field kvs ''sectionName'',
                     ie_issue = map_option cell_val (map_of kvs ''issue'')\<rparr>
           | _ \<Rightarrow> None))"

definition stats_at :: "heap \<Rightarrow> addr \<Rightarrow> stats option" where
  "stats_at h a =
     (case lookup h a of
        Some (DictObj kvs) \<Rightarrow>
          (case map_of kvs ''invalid'' of
             Some (Ref l) \<Rightarrow>
               (case lookup h l of
                  Some (ListObj cs) \<Rightarrow>
                    map_option
                      (\<lambda>items. \<lparr>st_count = int_value (dict_field kvs ''count''),
                                 st_min = dict_field kvs ''min'',
                                 st_max = dict_field kvs ''max'',
                                 st_invalid = items\<rparr>)
                      (those (map (invalid_entry_at h) cs))
                | _ \<Rightarrow> None)
           | _ \<Rightarrow> None)
      | _ \<Rightarrow> None)"

fun heap_of :: "outcome \<Rightarrow> heap" where
  "heap_of (Raised e h) = h"
| "heap_of (Returned a h) = h"

fun result_of :: "outcome \<Rightarrow> (error + stats) option" where
  "result_of (Raised e h) = Some (Inl e)"
| "result_of (Returned a h) = map_option Inr (stats_at h a)"

text \<open>
  The heap during the loop, when it started in \<open>h0\<close> and the two lists hold what the
  state \<open>s\<close> holds: the two lists after \<open>h0\<close>, then one dictionary for each invalid
  entry.
\<close>

definition encode_entry :: "invalid_entry \<Rightarrow> obj" where
  "encode_entry item =
     DictObj ([(''sectionId'', Val (ie_sectionId item)),
               (''courseCode'', Val (ie_courseCode item)),
               (''sectionName'', Val (ie_sectionName item))]
              @ (case ie_issue item of None \<Rightarrow> [] | Some v \<Rightarrow> [(''issue'', Val v)]))"

definition state_heap :: "heap \<Rightarrow> scan_state \<Rightarrow> heap" where
  "state_heap h0 s =
     h0 @ [ListObj (map Val (section_ids s)),
           ListObj (map Ref [length h0 + 2 ..< length h0 + 2 + length (invalid_entries s)])]
        @ map encode_entry (invalid_entries s)"

text \<open>The three-record example of the specification as a heap, the list at address 3.\<close>

definition example_records :: "(string \<times> cell) list list" where
  "example_records =
     [[(''sectionId'', Val (PInt 150000)), (''courseCode'', Val (PStr ''CS101'')),
       (''sectionName'', Val (PStr ''A''))],
      [(''sectionId'', Val (PInt 50)), (''courseCode'', Val (PStr ''CS102'')),
       (''sectionName'', Val (PStr ''B''))],
      [(''sectionId'', Val (PStr ''bad'')), (''courseCode'', Val (PStr ''CS103'')),
       (''sectionName'', Val (PStr ''C''))]]"

definition example_heap :: heap where
  "example_heap = map DictObj example_records @ [ListObj [Ref 0, Ref 1, Ref 2]]"

section \<open>The reporter\<close>

text \<open>Decimal rendering of an integer, as \<^verbatim>\<open>str\<close> gives it.\<close>

definition digit_char :: "nat \<Rightarrow> char" where
  "digit_char d = ''0123456789'' ! d"

fun show_nat :: "nat \<Rightarrow> string" where
  "show_nat n = (if n < 10 then [digit_char n] else show_nat (n div 10) @ [digit_char (n mod 10)])"

declare show_nat.simps [simp del]

definition show_int :: "int \<Rightarrow> string" where
  "show_int i = (if i < 0 then CHR ''-'' # show_nat (nat (- i)) else show_nat (nat i))"

text \<open>What an f-string field \<^verbatim>\<open>{v}\<close> renders.\<close>

fun py_str :: "pyval \<Rightarrow> string" where
  "py_str PNone = ''None''"
| "py_str (PBool b) = (if b then ''True'' else ''False'')"
| "py_str (PInt i) = show_int i"
| "py_str (PStr s) = s"
| "py_str (POther s) = s"

text \<open>\<^verbatim>\<open>sep.join(lines)\<close>.\<close>

fun join :: "string \<Rightarrow> string list \<Rightarrow> string" where
  "join sep [] = []"
| "join sep [l] = l"
| "join sep (l # m # ls) = l @ sep @ join sep (m # ls)"

definition newline :: string where
  "newline = [CHR 0x0A]"

definition head_lines :: "stats \<Rightarrow> string list" where
  "head_lines stats =
     [''Section ID Analysis'',
      ''===================='',
      ''Total entries checked: '' @ show_int (st_count stats),
      ''Minimum sectionId: '' @ py_str (st_min stats),
      ''Maximum sectionId: '' @ py_str (st_max stats),
      ''Expected range: '' @ show_int MIN_SECTION_ID @ '' - '' @ show_int MAX_SECTION_ID,
      '''']"

definition invalid_header :: "invalid_entry list \<Rightarrow> string" where
  "invalid_header items =
     ''Out-of-range or invalid section IDs ('' @ show_int (int (length items)) @ ''):''"

text \<open>\<^verbatim>\<open>item.get('issue', 'out of range')\<close> and the line of one item.\<close>

definition issue_text :: "invalid_entry \<Rightarrow> string" where
  "issue_text item = (case ie_issue item of None \<Rightarrow> ''out of range'' | Some v \<Rightarrow> py_str v)"

definition item_line :: "invalid_entry \<Rightarrow> string" where
  "item_line item =
     ''  - sectionId='' @ py_str (ie_sectionId item)
     @ '' courseCode='' @ py_str (ie_courseCode item)
     @ '' sectionName='' @ py_str (ie_sectionName item)
     @ '' issue='' @ issue_text item"

text \<open>\<^verbatim>\<open>for item in ...: lines.append(...)\<close>.\<close>

fun append_items :: "string list \<Rightarrow> invalid_entry list \<Rightarrow> string list" where
  "append_items lines [] = lines"
| "append_items lines (item # items) = append_items (lines @ [item_line item]) items"

definition truncated_line :: string where
  "truncated_line = ''  ... (truncated)''"

definition all_fine_line :: string where
  "all_fine_line = ''All section IDs fall within the expected range.''"

definition report_lines :: "stats \<Rightarrow> string list" where
  "report_lines stats =
     (let lines = head_lines stats in
      if st_invalid stats \<noteq> [] then
        (let lines1 = lines @ [invalid_header (st_invalid stats)];
             lines2 = append_items lines1 (take 50 (st_invalid stats))
         in if length (st_invalid stats) > 50 then lines2 @ [truncated_line] else lines2)
      else lines @ [all_fine_line])"

definition format_report :: "stats \<Rightarrow> string" where
  "format_report stats = join newline (report_lines stats)"

section \<open>Vocabulary of the properties\<close>

text \<open>
  The key of a record, the keys that pass the type test of the validator in record
  order, and the range test.
\<close>

definition key_of :: "entry \<Rightarrow> pyval" where
  "key_of e = dict_get e ''sectionId''"

definition typed_keys :: "entry list \<Rightarrow> pyval list" where
  "typed_keys data = filter isinstance_int (map key_of data)"

definition in_range :: "pyval \<Rightarrow> bool" where
  "in_range k = (MIN_SECTION_ID \<le> int_value k \<and> int_value k \<le> MAX_SECTION_ID)"

text \<open>
  The classification of one record in the words of the specification: a record whose key
  fails the type test yields one entry that carries the issue text; otherwise a key below
  the lower or above the upper bound yields one entry without an issue; otherwise the
  record yields nothing. It is compared with the loop below.
\<close>

definition classify :: "entry \<Rightarrow> invalid_entry option" where
  "classify e =
     (if \<not> isinstance_int (key_of e) then Some (type_entry e (key_of e))
      else if int_value (key_of e) < MIN_SECTION_ID \<or> int_value (key_of e) > MAX_SECTION_ID
           then Some (range_entry e (key_of e))
      else None)"

text \<open>The three-record example of the specification, and a record with a boolean key.\<close>

definition spec_example :: "entry list" where
  "spec_example =
     [[''sectionId'' \<mapsto> PInt 150000, ''courseCode'' \<mapsto> PStr ''CS101'',
       ''sectionName'' \<mapsto> PStr ''A''],
      [''sectionId'' \<mapsto> PInt 50, ''courseCode'' \<mapsto> PStr ''CS102'',
       ''sectionName'' \<mapsto> PStr ''B''],
      [''sectionId'' \<mapsto> PStr ''bad'', ''courseCode'' \<mapsto> PStr ''CS103'',
       ''sectionName'' \<mapsto> PStr ''C'']]"

definition bool_example :: "entry list" where
  "bool_example =
     [[''sectionId'' \<mapsto> PBool True, ''courseCode'' \<mapsto> PStr ''CS101'',
       ''sectionName'' \<mapsto> PStr ''A'']]"

definition spec_example_stats :: stats where
  "spec_example_stats =
     \<lparr>st_count = 2, st_min = PInt 50, st_max = PInt 150000,
      st_invalid =
        [\<lparr>ie_sectionId = PInt 50, ie_courseCode = PStr ''CS102'',
          ie_sectionName = PStr ''B'', ie_issue = None\<rparr>,
         \<lparr>ie_sectionId = PStr ''bad'', ie_courseCode = PStr ''CS103'',
          ie_sectionName = PStr ''C'',
          ie_issue = Some (PStr ''Missing or non-integer sectionId'')\<rparr>]\<rparr>"

text \<open>What the validator returns for 51 records that all have the key 1.\<close>

definition low_entry :: invalid_entry where
  "low_entry =
     \<lparr>ie_sectionId = PInt 1, ie_courseCode = PNone, ie_sectionName = PNone,
      ie_issue = None\<rparr>"

definition many_invalid :: stats where
  "many_invalid =
     \<lparr>st_count = 51, st_min = PInt 1, st_max = PInt 1,
      st_invalid = replicate 51 low_entry\<rparr>"

text \<open>What the validator returns for the single record with the key 150000.\<close>

definition clean_stats :: stats where
  "clean_stats =
     \<lparr>st_count = 1, st_min = PInt 150000, st_max = PInt 150000, st_invalid = []\<rparr>"

text \<open>
  The integer type of the specification, which is not Python's: a boolean is not an
  integer there.
\<close>

fun spec_integer :: "pyval \<Rightarrow> bool" where
  "spec_integer (PInt i) = True"
| "spec_integer (PBool b) = False"
| "spec_integer PNone = False"
| "spec_integer (PStr s) = False"
| "spec_integer (POther s) = False"

text \<open>Two datasets with the key \<^verbatim>\<open>False\<close>: alone, and beside the key 150000.\<close>

definition false_only_example :: "entry list" where
  "false_only_example = [[''sectionId'' \<mapsto> PBool False], Map.empty]"

definition mixed_example :: "entry list" where
  "mixed_example = [[''sectionId'' \<mapsto> PBool False], [''sectionId'' \<mapsto> PInt 150000]]"

text \<open>
  The lines of a text, as \<^verbatim>\<open>text.split('\n')\<close> gives them: the pieces between the
  newline characters.
\<close>

fun text_lines :: "string \<Rightarrow> string list" where
  "text_lines [] = [[]]"
| "text_lines (c # cs) =
     (if c = CHR 0x0A then [] # text_lines cs
      else (case text_lines cs of [] \<Rightarrow> [[c]] | l # ls \<Rightarrow> (c # l) # ls))"

definition newline_free :: "string \<Rightarrow> bool" where
  "newline_free s = (CHR 0x0A \<notin> set s)"

definition item_newline_free :: "invalid_entry \<Rightarrow> bool" where
  "item_newline_free item =
     (newline_free (py_str (ie_sectionId item))
      \<and> newline_free (py_str (ie_courseCode item))
      \<and> newline_free (py_str (ie_sectionName item))
      \<and> newline_free (issue_text item))"

text \<open>A line that starts the way the line of an invalid entry does.\<close>

definition is_item_line :: "string \<Rightarrow> bool" where
  "is_item_line l = (take 14 l = ''  - sectionId='')"

text \<open>
  What the validator returns for 51 records that all have the key 1 and a course code
  with a newline in it.
\<close>

definition split_entry :: invalid_entry where
  "split_entry =
     \<lparr>ie_sectionId = PInt 1,
      ie_courseCode = PStr (''CS'' @ [CHR 0x0A] @ ''  - sectionId=101''),
      ie_sectionName = PNone,
      ie_issue = None\<rparr>"

definition newline_stats :: stats where
  "newline_stats =
     \<lparr>st_count = 51, st_min = PInt 1, st_max = PInt 1,
      st_invalid = replicate 51 split_entry\<rparr>"

section \<open>The loop in closed form\<close>

lemma scan_entry_section_ids:
  "section_ids (scan_entry s e) =
     section_ids s @ (if isinstance_int (key_of e) then [key_of e] else [])"
  by (simp add: scan_entry_def key_of_def Let_def)

lemma scan_entry_invalid:
  "invalid_entries (scan_entry s e) =
     invalid_entries s @ (case classify e of None \<Rightarrow> [] | Some i \<Rightarrow> [i])"
  by (auto simp add: scan_entry_def key_of_def classify_def Let_def)

lemma scan_section_ids:
  "section_ids (scan s data) = section_ids s @ typed_keys data"
proof (induction data arbitrary: s)
  case Nil
  show ?case by (simp add: typed_keys_def)
next
  case (Cons e rest)
  have "section_ids (scan s (e # rest)) = section_ids (scan_entry s e) @ typed_keys rest"
    using Cons.IH by simp
  also have "\<dots> = section_ids s @ typed_keys (e # rest)"
    by (simp add: scan_entry_section_ids typed_keys_def)
  finally show ?case .
qed

lemma scan_invalid:
  "invalid_entries (scan s data) = invalid_entries s @ List.map_filter classify data"
proof (induction data arbitrary: s)
  case Nil
  show ?case by (simp add: map_filter_simps)
next
  case (Cons e rest)
  have "invalid_entries (scan s (e # rest))
          = invalid_entries (scan_entry s e) @ List.map_filter classify rest"
    using Cons.IH by simp
  also have "\<dots> = invalid_entries s @ List.map_filter classify (e # rest)"
    by (simp add: scan_entry_invalid map_filter_simps split: option.split)
  finally show ?case .
qed

lemma min_from_mem: "min_from cur xs \<in> set (cur # xs)"
  by (induction xs arbitrary: cur) (auto split: if_splits)

lemma min_from_le_cur: "int_value (min_from cur xs) \<le> int_value cur"
proof (induction xs arbitrary: cur)
  case Nil
  show ?case by simp
next
  case (Cons x xs)
  show ?case
    using Cons.IH [of x] Cons.IH [of cur] by (simp split: if_splits)
qed

lemma min_from_lower: "k \<in> set (cur # xs) \<Longrightarrow> int_value (min_from cur xs) \<le> int_value k"
proof (induction xs arbitrary: cur)
  case Nil
  then show ?case by simp
next
  case (Cons x xs)
  define c where "c = (if int_value x < int_value cur then x else cur)"
  have step: "min_from cur (x # xs) = min_from c xs" by (simp add: c_def)
  have c_le: "int_value c \<le> int_value cur" "int_value c \<le> int_value x"
    by (auto simp: c_def)
  from Cons.prems consider "k = cur" | "k = x" | "k \<in> set xs" by auto
  then show ?case
  proof cases
    case 1
    then show ?thesis using min_from_le_cur [of c xs] c_le(1) unfolding step by (auto intro: order_trans)
  next
    case 2
    then show ?thesis using min_from_le_cur [of c xs] c_le(2) unfolding step by (auto intro: order_trans)
  next
    case 3
    then show ?thesis using Cons.IH [of c] unfolding step by simp
  qed
qed

lemma max_from_mem: "max_from cur xs \<in> set (cur # xs)"
  by (induction xs arbitrary: cur) (auto split: if_splits)

lemma max_from_ge_cur: "int_value cur \<le> int_value (max_from cur xs)"
proof (induction xs arbitrary: cur)
  case Nil
  show ?case by simp
next
  case (Cons x xs)
  show ?case
    using Cons.IH [of x] Cons.IH [of cur] by (simp split: if_splits)
qed

lemma max_from_upper: "k \<in> set (cur # xs) \<Longrightarrow> int_value k \<le> int_value (max_from cur xs)"
proof (induction xs arbitrary: cur)
  case Nil
  then show ?case by simp
next
  case (Cons x xs)
  define c where "c = (if int_value x > int_value cur then x else cur)"
  have step: "max_from cur (x # xs) = max_from c xs" by (simp add: c_def)
  have c_ge: "int_value cur \<le> int_value c" "int_value x \<le> int_value c"
    by (auto simp: c_def)
  from Cons.prems consider "k = cur" | "k = x" | "k \<in> set xs" by auto
  then show ?case
  proof cases
    case 1
    then show ?thesis using max_from_ge_cur [of c xs] c_ge(1) unfolding step by (auto intro: order_trans)
  next
    case 2
    then show ?thesis using max_from_ge_cur [of c xs] c_ge(2) unfolding step by (auto intro: order_trans)
  next
    case 3
    then show ?thesis using Cons.IH [of c] unfolding step by simp
  qed
qed

text \<open>The result of the validator in closed form.\<close>

lemma analyze_fails:
  "typed_keys data = [] \<Longrightarrow> analyze_section_ids data = Inl (ValueError no_valid_msg)"
  by (simp add: analyze_section_ids_def summarize_def scan_section_ids init_state_def)

lemma analyze_returns:
  assumes "typed_keys data = k # ks"
  shows "analyze_section_ids data =
           Inr \<lparr>st_count = int (length (k # ks)),
                st_min = min_from k ks,
                st_max = max_from k ks,
                st_invalid = List.map_filter classify data\<rparr>"
  using assms
  by (simp add: analyze_section_ids_def summarize_def scan_section_ids scan_invalid
      init_state_def)

lemma analyze_spec_example: "analyze_section_ids spec_example = Inr spec_example_stats"
  by code_simp

lemma typed_keys_spec_example: "typed_keys spec_example = [PInt 150000, PInt 50]"
  by code_simp

lemma analyze_ok_keys:
  assumes "analyze_section_ids data = Inr st"
  obtains k ks where "typed_keys data = k # ks"
    and "st = \<lparr>st_count = int (length (k # ks)), st_min = min_from k ks,
               st_max = max_from k ks, st_invalid = List.map_filter classify data\<rparr>"
proof -
  have "typed_keys data \<noteq> []"
  proof
    assume "typed_keys data = []"
    then have "analyze_section_ids data = Inl (ValueError no_valid_msg)"
      by (rule analyze_fails)
    with assms show False by simp
  qed
  then obtain k ks where keys: "typed_keys data = k # ks"
    by (cases "typed_keys data") auto
  with analyze_returns [OF keys] assms that show thesis
    by simp
qed

subsection \<open>The function over the store refines the function on values\<close>

lemma lookup_prefix: "a < length h0 \<Longrightarrow> lookup (h0 @ ext) a = Some (h0 ! a)"
  by (simp add: lookup_def nth_append)

lemma lookup_at_end: "lookup (h0 @ x # rest) (length h0) = Some x"
  by (simp add: lookup_def)

lemma lookup_after_end: "lookup (h0 @ x # y # rest) (Suc (length h0)) = Some y"
  by (simp add: lookup_def nth_append)

lemma append_ids:
  "list_append (length h0) c (h0 @ ListObj xs # rest) = Inr (h0 @ ListObj (xs @ [c]) # rest)"
  by (simp add: list_append_def lookup_at_end)

lemma append_inv:
  "list_append (Suc (length h0)) c (h0 @ x # ListObj rs # rest)
     = Inr (h0 @ x # ListObj (rs @ [c]) # rest)"
  by (simp add: list_append_def lookup_after_end list_update_append)

lemma map_of_val:
  "list_all (\<lambda>kv. is_val (snd kv)) kvs \<Longrightarrow> map_of kvs k = Some c \<Longrightarrow> c = Val (cell_val c)"
proof -
  assume all: "list_all (\<lambda>kv. is_val (snd kv)) kvs" and "map_of kvs k = Some c"
  then have "(k, c) \<in> set kvs" by (simp add: map_of_SomeD)
  with all have "is_val c" by (auto simp add: list_all_iff)
  then show ?thesis by (cases c) simp_all
qed

lemma get_prefix:
  assumes "a < length h0" and "h0 ! a = DictObj kvs"
    and "list_all (\<lambda>kv. is_val (snd kv)) kvs"
  shows "cell_get (h0 @ ext) (Ref a) k = Inr (Val (dict_get (entry_of kvs) k))"
proof (cases "map_of kvs k")
  case None
  then show ?thesis
    using assms(1,2) by (simp add: cell_get_def lookup_prefix dict_get_def entry_of_def)
next
  case (Some c)
  with assms(3) have "c = Val (cell_val c)" by (rule map_of_val)
  then obtain v where "c = Val v" by blast
  with Some show ?thesis
    using assms(1,2) by (simp add: cell_get_def lookup_prefix dict_get_def entry_of_def)
qed

lemma state_heap_shape:
  "state_heap h0 s =
     h0 @ ListObj (map Val (section_ids s))
        # ListObj (map Ref [length h0 + 2 ..< length h0 + 2 + length (invalid_entries s)])
        # map encode_entry (invalid_entries s)"
  by (simp add: state_heap_def)

lemma length_state_heap:
  "length (state_heap h0 s) = length h0 + 2 + length (invalid_entries s)"
  by (simp add: state_heap_def)

lemma body_refines:
  assumes a: "a < length h0" and kvs: "h0 ! a = DictObj kvs"
    and vals: "list_all (\<lambda>kv. is_val (snd kv)) kvs"
  shows "heap_body (length h0) (Suc (length h0)) (Ref a) (state_heap h0 s)
           = Inr (state_heap h0 (scan_entry s (entry_of kvs)))"
proof -
  let ?e = "entry_of kvs"
  let ?k = "dict_get ?e ''sectionId''"
  have get: "cell_get (h0 @ ext) (Ref a) k = Inr (Val (dict_get ?e k))" for ext k
    using a kvs vals by (rule get_prefix)
  have alloc_len: "length h0 + 2 + n = Suc (Suc (length h0 + n))" for n
    by simp
  show ?thesis
  proof (cases "isinstance_int ?k")
    case False
    then show ?thesis
      unfolding heap_body_def state_heap_shape
      by (simp add: get alloc_def append_inv scan_entry_def Let_def type_entry_def
          encode_entry_def)
  next
    case True
    show ?thesis
    proof (cases "MIN_SECTION_ID \<le> int_value ?k \<and> int_value ?k \<le> MAX_SECTION_ID")
      case inside: True
      with True show ?thesis
        unfolding heap_body_def state_heap_shape
        by (simp add: get append_ids scan_entry_def Let_def)
    next
      case outside: False
      with True show ?thesis
        unfolding heap_body_def state_heap_shape
        by (simp add: get append_ids alloc_def append_inv scan_entry_def Let_def
            range_entry_def encode_entry_def)
    qed
  qed
qed

lemma those_map_Some: "those xs = Some ys \<Longrightarrow> xs = map Some ys"
proof (induction xs arbitrary: ys)
  case Nil
  then show ?case by simp
next
  case (Cons x xs)
  then show ?case
    by (cases x; cases "those xs") auto
qed

lemma those_of_map_Some: "those (map Some ys) = Some ys"
  by (induction ys) simp_all

lemma dataset_atD:
  assumes "dataset_at h d = Some data"
  obtains cells where "d < length h" and "h ! d = ListObj cells"
    and "map (record_at h) cells = map Some data"
proof -
  from assms obtain cells where l: "lookup h d = Some (ListObj cells)"
    and t: "those (map (record_at h) cells) = Some data"
    by (auto simp add: dataset_at_def split: option.splits obj.splits)
  from l have "d < length h" "h ! d = ListObj cells"
    by (auto simp add: lookup_def split: if_splits)
  with those_map_Some [OF t] that show thesis by blast
qed

lemma record_atD:
  assumes "record_at h c = Some e"
  obtains a kvs where "c = Ref a" and "a < length h" and "h ! a = DictObj kvs"
    and "list_all (\<lambda>kv. is_val (snd kv)) kvs" and "e = entry_of kvs"
  using assms
  by (auto simp add: record_at_def lookup_def split: cell.splits option.splits obj.splits
      if_splits)

lemma loop_refines:
  assumes d: "d < length h0" and cells: "h0 ! d = ListObj cells"
    and recs: "map (record_at h0) cells = map Some data"
  shows "heap_loop d (length h0) (Suc (length h0)) i (state_heap h0 s)
           = Some (Inr (state_heap h0 (scan s (drop i data))))"
proof (induction "length cells - i" arbitrary: i s)
  case 0
  have len: "length data = length cells"
    using recs by (metis length_map)
  have look: "lookup (state_heap h0 s) d = Some (ListObj cells)"
    using d cells by (simp add: state_heap_def lookup_prefix)
  from 0 len show ?case
    by (subst heap_loop.simps) (simp add: look)
next
  case (Suc n)
  have len: "length data = length cells"
    using recs by (metis length_map)
  from Suc.hyps(2) have i: "i < length cells" by simp
  have look: "lookup (state_heap h0 s) d = Some (ListObj cells)"
    using d cells by (simp add: state_heap_def lookup_prefix)
  have "record_at h0 (cells ! i) = Some (data ! i)"
    using recs i len by (metis nth_map)
  then obtain a kvs where c: "cells ! i = Ref a" and a: "a < length h0"
    and kvs: "h0 ! a = DictObj kvs" and vals: "list_all (\<lambda>kv. is_val (snd kv)) kvs"
    and e: "data ! i = entry_of kvs"
    by (rule record_atD)
  have body: "heap_body (length h0) (Suc (length h0)) (cells ! i) (state_heap h0 s)
           = Inr (state_heap h0 (scan_entry s (data ! i)))"
    unfolding c e using a kvs vals by (rule body_refines)
  have rest: "drop i data = data ! i # drop (Suc i) data"
    using i len by (simp add: Cons_nth_drop_Suc)
  from Suc.hyps(2) have "n = length cells - Suc i" by simp
  then have "heap_loop d (length h0) (Suc (length h0)) (Suc i)
               (state_heap h0 (scan_entry s (data ! i)))
           = Some (Inr (state_heap h0 (scan (scan_entry s (data ! i)) (drop (Suc i) data))))"
    by (rule Suc.hyps(1))
  then show ?case
    by (subst heap_loop.simps) (simp add: look i body rest)
qed

lemma cell_min_from_vals: "cell_min_from (Val x) (map Val xs) = Val (min_from x xs)"
  by (induction xs arbitrary: x) simp_all

lemma cell_max_from_vals: "cell_max_from (Val x) (map Val xs) = Val (max_from x xs)"
  by (induction xs arbitrary: x) simp_all

lemma decode_encode:
  assumes "a < length h" and "h ! a = encode_entry item"
  shows "invalid_entry_at h (Ref a) = Some item"
  using assms
  by (cases "ie_issue item")
     (simp_all add: invalid_entry_at_def lookup_def encode_entry_def dict_field_def)

lemma invalid_list_decodes:
  assumes "\<And>j. j < length items \<Longrightarrow> n + j < length h \<and> h ! (n + j) = encode_entry (items ! j)"
  shows "those (map (invalid_entry_at h) (map Ref [n ..< n + length items])) = Some items"
proof -
  have "map (invalid_entry_at h) (map Ref [n ..< n + length items]) = map Some items"
  proof (rule nth_equalityI)
    show "length (map (invalid_entry_at h) (map Ref [n ..< n + length items]))
            = length (map Some items)"
      by simp
  next
    fix j
    assume "j < length (map (invalid_entry_at h) (map Ref [n ..< n + length items]))"
    then have j: "j < length items" by simp
    with assms [OF j] show "map (invalid_entry_at h) (map Ref [n ..< n + length items]) ! j
            = map Some items ! j"
      by (simp add: decode_encode)
  qed
  then show ?thesis
    by (simp only: those_of_map_Some)
qed

lemma summarize_refines:
  "result_of (heap_summarize (length h0) (Suc (length h0)) (state_heap h0 s))
     = Some (summarize s)
   \<and> (\<exists>ext. heap_of (heap_summarize (length h0) (Suc (length h0)) (state_heap h0 s))
              = h0 @ ext)"
proof (cases "section_ids s")
  case Nil
  then have "heap_summarize (length h0) (Suc (length h0)) (state_heap h0 s)
               = Raised (ValueError no_valid_msg) (state_heap h0 s)"
    by (simp add: heap_summarize_def state_heap_shape lookup_at_end)
  moreover have "\<exists>ext. state_heap h0 s = h0 @ ext"
    unfolding state_heap_def by (intro exI) (rule refl)
  ultimately show ?thesis
    using Nil by (simp add: summarize_def)
next
  case (Cons x xs)
  let ?h = "state_heap h0 s"
  let ?d = "DictObj [(''count'', Val (PInt (int (length (x # xs))))),
                     (''min'', Val (min_from x xs)),
                     (''max'', Val (max_from x xs)),
                     (''invalid'', Ref (Suc (length h0)))]"
  have out: "heap_summarize (length h0) (Suc (length h0)) ?h
               = Returned (length ?h) (?h @ [?d])"
    by (simp add: heap_summarize_def state_heap_shape lookup_at_end Cons alloc_def
        cell_min_from_vals cell_max_from_vals)
  define refs where
    "refs = map Ref [length h0 + 2 ..< length h0 + 2 + length (invalid_entries s)]"
  define h' where "h' = ?h @ [?d]"
  have items: "those (map (invalid_entry_at h') refs) = Some (invalid_entries s)"
    unfolding refs_def h'_def
    by (rule invalid_list_decodes) (simp add: state_heap_def nth_append)
  have inv_list: "lookup h' (Suc (length h0)) = Some (ListObj refs)"
    by (simp add: h'_def refs_def state_heap_def lookup_def nth_append)
  have dict: "lookup h' (length ?h) = Some ?d"
    by (simp add: h'_def lookup_def)
  have "stats_at h' (length ?h)
          = Some \<lparr>st_count = int (length (x # xs)), st_min = min_from x xs,
                  st_max = max_from x xs, st_invalid = invalid_entries s\<rparr>"
    unfolding stats_at_def dict
    by (simp add: inv_list items dict_field_def)
  then have "result_of (heap_summarize (length h0) (Suc (length h0)) ?h) = Some (summarize s)"
    by (simp add: out h'_def summarize_def Cons)
  moreover have "\<exists>ext. heap_of (heap_summarize (length h0) (Suc (length h0)) ?h)
                         = h0 @ ext"
  proof -
    obtain ext where ext: "?h = h0 @ ext"
      unfolding state_heap_def by blast
    show ?thesis
      unfolding out by (simp add: ext)
  qed
  ultimately show ?thesis by blast
qed

lemma first_run:
  assumes "dataset_at h d = Some data"
  shows "\<exists>out ext. analyze_heap d h = Some out \<and> heap_of out = h @ ext
           \<and> result_of out = Some (analyze_section_ids data)"
proof -
  from assms obtain cells where d: "d < length h" and cells: "h ! d = ListObj cells"
    and recs: "map (record_at h) cells = map Some data"
    by (rule dataset_atD)
  have start: "h @ [ListObj [], ListObj []] = state_heap h init_state"
    by (simp add: state_heap_def init_state_def)
  have loop: "heap_loop d (length h) (Suc (length h)) 0 (state_heap h init_state)
                = Some (Inr (state_heap h (scan init_state data)))"
    using loop_refines [OF d cells recs, of 0 init_state] by simp
  have run: "analyze_heap d h
               = Some (heap_summarize (length h) (Suc (length h))
                         (state_heap h (scan init_state data)))"
    by (simp add: analyze_heap_def alloc_def start [simplified] loop)
  from summarize_refines [of h "scan init_state data"] run show ?thesis
    by (auto simp add: analyze_section_ids_def)
qed

lemma record_at_extend: "record_at h c = Some e \<Longrightarrow> record_at (h @ ext) c = Some e"
  by (auto simp add: record_at_def lookup_def nth_append
      split: cell.splits option.splits obj.splits if_splits)

lemma dataset_at_extend:
  assumes "dataset_at h d = Some data"
  shows "dataset_at (h @ ext) d = Some data"
proof -
  from assms obtain cells where d: "d < length h" and cells: "h ! d = ListObj cells"
    and recs: "map (record_at h) cells = map Some data"
    by (rule dataset_atD)
  have "map (record_at (h @ ext)) cells = map Some data"
  proof (rule nth_equalityI)
    show "length (map (record_at (h @ ext)) cells) = length (map Some data)"
      using recs by (metis length_map)
  next
    fix j
    assume "j < length (map (record_at (h @ ext)) cells)"
    then have j: "j < length cells" by simp
    then have "record_at h (cells ! j) = Some (data ! j)"
      using recs by (metis length_map nth_map)
    then have "record_at (h @ ext) (cells ! j) = Some (data ! j)"
      by (rule record_at_extend)
    with j recs show "map (record_at (h @ ext)) cells ! j = map Some data ! j"
      by (metis length_map nth_map)
  qed
  then show ?thesis
    using d cells by (simp add: dataset_at_def lookup_prefix those_of_map_Some)
qed

lemma example_dataset: "dataset_at example_heap 3 = Some (map entry_of example_records)"
  by (simp add: dataset_at_def lookup_def example_heap_def example_records_def record_at_def)

lemma example_result:
  "analyze_section_ids (map entry_of example_records) = Inr spec_example_stats"
  by code_simp

section \<open>The validator: claims\<close>

text \<open>
  Claim C1. A record whose \<^verbatim>\<open>sectionId\<close> is a boolean is to be classified as a malformed
  key: an entry with the issue text, the value not among the collected keys, no
  contribution to count, minimum or maximum. The code does otherwise: for the dataset of
  one record with the key \<^verbatim>\<open>True\<close> it returns normally, with count 1, minimum and
  maximum \<^verbatim>\<open>True\<close>, and an entry without an issue (reported as out of range), because
  \<^verbatim>\<open>isinstance(True, int)\<close> holds in Python.
\<close>

theorem boolean_key_passes_type_test:
  "analyze_section_ids bool_example =
     Inr \<lparr>st_count = 1, st_min = PBool True, st_max = PBool True,
          st_invalid =
            [\<lparr>ie_sectionId = PBool True, ie_courseCode = PStr ''CS101'',
              ie_sectionName = PStr ''A'', ie_issue = None\<rparr>]\<rparr>"
  by code_simp

text \<open>
  What the guard after the loop does, relative to the type test of the code: the
  validator fails exactly when no key passes \<^verbatim>\<open>isinstance(v, int)\<close>.
\<close>

lemma guard_on_type_test:
  "((\<forall>e \<in> set data. \<not> isinstance_int (dict_get e ''sectionId''))
      \<longrightarrow> analyze_section_ids data = Inl (ValueError no_valid_msg))
   \<and> ((\<forall>e \<in> set data. e ''sectionId'' = None)
      \<longrightarrow> analyze_section_ids data = Inl (ValueError no_valid_msg))
   \<and> ((\<exists>e \<in> set data. isinstance_int (dict_get e ''sectionId''))
      \<longrightarrow> (\<exists>st. analyze_section_ids data = Inr st))"
proof (intro conjI impI)
  assume "\<forall>e \<in> set data. \<not> isinstance_int (dict_get e ''sectionId'')"
  then have "typed_keys data = []"
    by (simp add: typed_keys_def key_of_def filter_empty_conv)
  then show "analyze_section_ids data = Inl (ValueError no_valid_msg)"
    by (rule analyze_fails)
next
  assume "\<forall>e \<in> set data. e ''sectionId'' = None"
  then have "typed_keys data = []"
    by (auto simp add: typed_keys_def key_of_def dict_get_def filter_empty_conv)
  then show "analyze_section_ids data = Inl (ValueError no_valid_msg)"
    by (rule analyze_fails)
next
  assume "\<exists>e \<in> set data. isinstance_int (dict_get e ''sectionId'')"
  then have "typed_keys data \<noteq> []"
    by (simp add: typed_keys_def key_of_def filter_empty_conv)
  then obtain k ks where "typed_keys data = k # ks"
    by (cases "typed_keys data") auto
  then show "\<exists>st. analyze_section_ids data = Inr st"
    using analyze_returns by blast
qed

text \<open>
  Claim C2. When no record has an integer key, the validator is to fail with the error
  for an empty dataset. The code does otherwise where a key is a boolean: in the dataset
  of one record with the key \<^verbatim>\<open>False\<close> and one record without the field no key is an
  integer of the specification, and the validator returns statistics with count 1 and
  minimum and maximum \<^verbatim>\<open>False\<close>. On the empty dataset it fails as claimed.
\<close>

theorem boolean_only_dataset_returns:
  "filter spec_integer (map key_of false_only_example) = []
   \<and> analyze_section_ids false_only_example =
       Inr \<lparr>st_count = 1, st_min = PBool False, st_max = PBool False,
            st_invalid =
              [\<lparr>ie_sectionId = PBool False, ie_courseCode = PNone,
                ie_sectionName = PNone, ie_issue = None\<rparr>,
               \<lparr>ie_sectionId = PNone, ie_courseCode = PNone, ie_sectionName = PNone,
                ie_issue = Some (PStr ''Missing or non-integer sectionId'')\<rparr>]\<rparr>
   \<and> analyze_section_ids [] = Inl (ValueError no_valid_msg)"
  by code_simp

lemma scan_append: "scan s (a @ b) = scan (scan s a) b"
  by (induction a arbitrary: s) simp_all

lemma scan_invalid_from_init:
  "invalid_entries (scan s data) = invalid_entries s @ invalid_entries (scan init_state data)"
  by (simp add: scan_invalid init_state_def)

lemma record_in_context:
  "\<exists>st. analyze_section_ids (pre @ [e(''sectionId'' \<mapsto> PInt k)] @ post) = Inr st
        \<and> st_invalid st =
            invalid_entries (scan init_state pre)
            @ (if MIN_SECTION_ID \<le> k \<and> k \<le> MAX_SECTION_ID then []
               else [\<lparr>ie_sectionId = PInt k,
                      ie_courseCode = dict_get e ''courseCode'',
                      ie_sectionName = dict_get e ''sectionName'',
                      ie_issue = None\<rparr>])
            @ invalid_entries (scan init_state post)"
proof -
  let ?r = "e(''sectionId'' \<mapsto> PInt k)"
  let ?data = "pre @ [?r] @ post"
  let ?new = "if MIN_SECTION_ID \<le> k \<and> k \<le> MAX_SECTION_ID then []
               else [\<lparr>ie_sectionId = PInt k,
                      ie_courseCode = dict_get e ''courseCode'',
                      ie_sectionName = dict_get e ''sectionName'',
                      ie_issue = None\<rparr>]"
  have body: "invalid_entries (scan_entry s ?r) = invalid_entries s @ ?new" for s
    by (simp add: scan_entry_def dict_get_def range_entry_def Let_def)
  have "invalid_entries (scan init_state ?data)
          = invalid_entries (scan (scan_entry (scan init_state pre) ?r) post)"
    by (simp add: scan_append)
  also have "\<dots> = invalid_entries (scan_entry (scan init_state pre) ?r)
                    @ invalid_entries (scan init_state post)"
    by (rule scan_invalid_from_init)
  also have "\<dots> = invalid_entries (scan init_state pre) @ ?new
                    @ invalid_entries (scan init_state post)"
    by (simp add: body)
  finally have inv: "invalid_entries (scan init_state ?data)
          = invalid_entries (scan init_state pre) @ ?new
            @ invalid_entries (scan init_state post)" .
  have "typed_keys ?data \<noteq> []"
    by (simp add: typed_keys_def key_of_def dict_get_def)
  then obtain x xs where keys: "typed_keys ?data = x # xs"
    by (cases "typed_keys ?data") auto
  from analyze_returns [OF keys] obtain st where st: "analyze_section_ids ?data = Inr st"
    by blast
  then have "st_invalid st = invalid_entries (scan init_state ?data)"
    by (auto simp add: analyze_section_ids_def summarize_def split: if_splits sum.splits)
  with inv st show ?thesis
    by simp
qed

text \<open>
  Claim C3. The acceptable range is the closed interval from \<open>MIN_SECTION_ID\<close> to
  \<open>MAX_SECTION_ID\<close>. For a record with the integer key \<open>k\<close> anywhere in a dataset, the
  validator returns, and the invalid entries of its result are those of the records
  before it, then an entry without an issue for this record exactly when \<open>k\<close> is below
  the lower or above the upper bound, then those of the records after it. So a dataset of
  one record with the key at the lower or at the upper bound has no invalid entry, and
  with the key one below the lower or one above the upper bound has the one entry.
\<close>

theorem range_bounds_inclusive:
  "(\<exists>st. analyze_section_ids (pre @ [e(''sectionId'' \<mapsto> PInt k)] @ post) = Inr st
        \<and> st_invalid st =
            invalid_entries (scan init_state pre)
            @ (if MIN_SECTION_ID \<le> k \<and> k \<le> MAX_SECTION_ID then []
               else [\<lparr>ie_sectionId = PInt k,
                      ie_courseCode = dict_get e ''courseCode'',
                      ie_sectionName = dict_get e ''sectionName'',
                      ie_issue = None\<rparr>])
            @ invalid_entries (scan init_state post))
   \<and> (\<exists>st. analyze_section_ids [e(''sectionId'' \<mapsto> PInt MIN_SECTION_ID)] = Inr st
        \<and> st_invalid st = [])
   \<and> (\<exists>st. analyze_section_ids [e(''sectionId'' \<mapsto> PInt MAX_SECTION_ID)] = Inr st
        \<and> st_invalid st = [])
   \<and> (\<exists>st. analyze_section_ids [e(''sectionId'' \<mapsto> PInt (MIN_SECTION_ID - 1))] = Inr st
        \<and> st_invalid st =
            [\<lparr>ie_sectionId = PInt (MIN_SECTION_ID - 1),
              ie_courseCode = dict_get e ''courseCode'',
              ie_sectionName = dict_get e ''sectionName'',
              ie_issue = None\<rparr>])
   \<and> (\<exists>st. analyze_section_ids [e(''sectionId'' \<mapsto> PInt (MAX_SECTION_ID + 1))] = Inr st
        \<and> st_invalid st =
            [\<lparr>ie_sectionId = PInt (MAX_SECTION_ID + 1),
              ie_courseCode = dict_get e ''courseCode'',
              ie_sectionName = dict_get e ''sectionName'',
              ie_issue = None\<rparr>])"
proof (intro conjI)
  show "\<exists>st. analyze_section_ids (pre @ [e(''sectionId'' \<mapsto> PInt k)] @ post) = Inr st
        \<and> st_invalid st =
            invalid_entries (scan init_state pre)
            @ (if MIN_SECTION_ID \<le> k \<and> k \<le> MAX_SECTION_ID then []
               else [\<lparr>ie_sectionId = PInt k,
                      ie_courseCode = dict_get e ''courseCode'',
                      ie_sectionName = dict_get e ''sectionName'',
                      ie_issue = None\<rparr>])
            @ invalid_entries (scan init_state post)"
    by (rule record_in_context)
  have order: "MIN_SECTION_ID \<le> MAX_SECTION_ID"
    by (simp add: MIN_SECTION_ID_def MAX_SECTION_ID_def)
  show "\<exists>st. analyze_section_ids [e(''sectionId'' \<mapsto> PInt MIN_SECTION_ID)] = Inr st
        \<and> st_invalid st = []"
    using record_in_context [of "[]" e MIN_SECTION_ID "[]"] order
    by (simp add: init_state_def)
  show "\<exists>st. analyze_section_ids [e(''sectionId'' \<mapsto> PInt MAX_SECTION_ID)] = Inr st
        \<and> st_invalid st = []"
    using record_in_context [of "[]" e MAX_SECTION_ID "[]"] order
    by (simp add: init_state_def)
  show "\<exists>st. analyze_section_ids [e(''sectionId'' \<mapsto> PInt (MIN_SECTION_ID - 1))] = Inr st
        \<and> st_invalid st =
            [\<lparr>ie_sectionId = PInt (MIN_SECTION_ID - 1),
              ie_courseCode = dict_get e ''courseCode'',
              ie_sectionName = dict_get e ''sectionName'',
              ie_issue = None\<rparr>]"
    using record_in_context [of "[]" e "MIN_SECTION_ID - 1" "[]"]
    by (simp add: init_state_def)
  show "\<exists>st. analyze_section_ids [e(''sectionId'' \<mapsto> PInt (MAX_SECTION_ID + 1))] = Inr st
        \<and> st_invalid st =
            [\<lparr>ie_sectionId = PInt (MAX_SECTION_ID + 1),
              ie_courseCode = dict_get e ''courseCode'',
              ie_sectionName = dict_get e ''sectionName'',
              ie_issue = None\<rparr>]"
    using record_in_context [of "[]" e "MAX_SECTION_ID + 1" "[]"]
    by (simp add: init_state_def)
qed

theorem range_bounds_inclusive_witness:
  "\<exists>st. analyze_section_ids
          [[''sectionId'' \<mapsto> PInt 99999], [''sectionId'' \<mapsto> PInt 100000],
           [''sectionId'' \<mapsto> PInt 999999], [''sectionId'' \<mapsto> PInt 1000000]] = Inr st
        \<and> st_invalid st =
            [\<lparr>ie_sectionId = PInt 99999, ie_courseCode = PNone, ie_sectionName = PNone,
              ie_issue = None\<rparr>,
             \<lparr>ie_sectionId = PInt 1000000, ie_courseCode = PNone, ie_sectionName = PNone,
              ie_issue = None\<rparr>]"
  using range_bounds_inclusive
    [of "[[''sectionId'' \<mapsto> PInt 99999]]" Map.empty 100000
        "[[''sectionId'' \<mapsto> PInt 999999], [''sectionId'' \<mapsto> PInt 1000000]]"]
  by (simp add: MIN_SECTION_ID_def MAX_SECTION_ID_def init_state_def dict_get_def
      scan_entry_def range_entry_def Let_def)

text \<open>
  What the statistics are, relative to the type test of the code: the count, the minimum
  and the maximum are over the keys that pass \<^verbatim>\<open>isinstance(v, int)\<close>, in range or not.
\<close>

lemma statistics_over_passed_keys:
  assumes ok: "analyze_section_ids data = Inr st"
  shows "st_count st = int (length (typed_keys data))"
    and "st_min st \<in> set (typed_keys data)"
    and "st_max st \<in> set (typed_keys data)"
    and "\<forall>k \<in> set (typed_keys data).
          int_value (st_min st) \<le> int_value k \<and> int_value k \<le> int_value (st_max st)"
proof -
  from ok obtain k ks where keys: "typed_keys data = k # ks"
    and st: "st = \<lparr>st_count = int (length (k # ks)), st_min = min_from k ks,
                   st_max = max_from k ks, st_invalid = List.map_filter classify data\<rparr>"
    by (rule analyze_ok_keys)
  show "st_count st = int (length (typed_keys data))"
    by (simp add: st keys)
  show "st_min st \<in> set (typed_keys data)"
    using min_from_mem [of k ks] by (simp add: st keys)
  show "st_max st \<in> set (typed_keys data)"
    using max_from_mem [of k ks] by (simp add: st keys)
  show "\<forall>k \<in> set (typed_keys data).
          int_value (st_min st) \<le> int_value k \<and> int_value k \<le> int_value (st_max st)"
    using min_from_lower [of _ k ks] max_from_upper [of _ k ks] by (simp add: st keys)
qed

text \<open>
  Claim C4. The count is to be the number of records whose key passed the integer type
  check, and the minimum and maximum those of exactly these keys. The code does otherwise
  where a key is a boolean: for the two records with the keys \<^verbatim>\<open>False\<close> and 150000 the
  only integer key of the specification is 150000, and the validator returns count 2 and
  minimum \<^verbatim>\<open>False\<close>. The three-record example of the specification, which has no boolean
  key, gives count 2, minimum 50, maximum 150000 and two invalid entries, as claimed.
\<close>

theorem boolean_key_in_statistics:
  "filter spec_integer (map key_of mixed_example) = [PInt 150000]
   \<and> analyze_section_ids mixed_example =
       Inr \<lparr>st_count = 2, st_min = PBool False, st_max = PInt 150000,
            st_invalid =
              [\<lparr>ie_sectionId = PBool False, ie_courseCode = PNone,
                ie_sectionName = PNone, ie_issue = None\<rparr>]\<rparr>
   \<and> analyze_section_ids spec_example =
       Inr \<lparr>st_count = 2, st_min = PInt 50, st_max = PInt 150000,
            st_invalid =
              [\<lparr>ie_sectionId = PInt 50, ie_courseCode = PStr ''CS102'',
                ie_sectionName = PStr ''B'', ie_issue = None\<rparr>,
               \<lparr>ie_sectionId = PStr ''bad'', ie_courseCode = PStr ''CS103'',
                ie_sectionName = PStr ''C'',
                ie_issue = Some (PStr ''Missing or non-integer sectionId'')\<rparr>]\<rparr>"
  by code_simp

lemma scan_entry_one_reason:
  "(isinstance_int (key_of e) \<and> in_range (key_of e)
      \<and> invalid_entries (scan_entry s e) = invalid_entries s)
   \<or> (isinstance_int (key_of e) \<and> \<not> in_range (key_of e)
      \<and> invalid_entries (scan_entry s e) = invalid_entries s @ [range_entry e (key_of e)])
   \<or> (\<not> isinstance_int (key_of e)
      \<and> invalid_entries (scan_entry s e) = invalid_entries s @ [type_entry e (key_of e)])"
  by (simp add: scan_entry_def key_of_def in_range_def Let_def)

text \<open>
  Claim C7. The invalid entries of the result are those of the records in record order,
  and a record adds at most one entry, for one reason: a record whose key fails the type
  test adds the entry with the issue text and is not range-checked, a record whose key
  passes the type test and lies outside the bounds adds the entry without an issue, and
  any other record adds nothing.
\<close>

theorem invalid_in_record_order:
  "(analyze_section_ids data = Inr st \<longrightarrow> st_invalid st = List.map_filter classify data)
   \<and> (case classify e of
         None \<Rightarrow> isinstance_int (key_of e) \<and> in_range (key_of e)
           \<and> invalid_entries (scan_entry s e) = invalid_entries s
       | Some i \<Rightarrow> invalid_entries (scan_entry s e) = invalid_entries s @ [i]
           \<and> (ie_issue i = Some (PStr type_issue)) = (\<not> isinstance_int (key_of e))
           \<and> (ie_issue i = None) = (isinstance_int (key_of e) \<and> \<not> in_range (key_of e)))"
proof (intro conjI impI)
  assume ok: "analyze_section_ids data = Inr st"
  then obtain k ks where
    "st = \<lparr>st_count = int (length (k # ks)), st_min = min_from k ks,
           st_max = max_from k ks, st_invalid = List.map_filter classify data\<rparr>"
    by (rule analyze_ok_keys)
  then show "st_invalid st = List.map_filter classify data" by simp
next
  show "case classify e of
         None \<Rightarrow> isinstance_int (key_of e) \<and> in_range (key_of e)
           \<and> invalid_entries (scan_entry s e) = invalid_entries s
       | Some i \<Rightarrow> invalid_entries (scan_entry s e) = invalid_entries s @ [i]
           \<and> (ie_issue i = Some (PStr type_issue)) = (\<not> isinstance_int (key_of e))
           \<and> (ie_issue i = None) = (isinstance_int (key_of e) \<and> \<not> in_range (key_of e))"
    using scan_entry_one_reason [of e s]
    by (auto simp add: classify_def in_range_def type_entry_def range_entry_def)
qed

theorem invalid_in_record_order_witness:
  "analyze_section_ids spec_example = Inr spec_example_stats
   \<and> st_invalid spec_example_stats = List.map_filter classify spec_example
   \<and> classify (spec_example ! 0) = None
   \<and> invalid_entries (scan_entry init_state (spec_example ! 0)) = []"
  using invalid_in_record_order [of spec_example spec_example_stats "spec_example ! 0" init_state]
    analyze_spec_example
  by (simp add: spec_example_def classify_def key_of_def dict_get_def in_range_def
      MIN_SECTION_ID_def MAX_SECTION_ID_def init_state_def)

lemma length_typed_split:
  "length data = length (typed_keys data)
                 + length (filter (\<lambda>e. \<not> isinstance_int (key_of e)) data)"
  by (induction data) (simp_all add: typed_keys_def)

lemma issue_count:
  "length (filter (\<lambda>i. ie_issue i \<noteq> None) (List.map_filter classify data))
     = length (filter (\<lambda>e. \<not> isinstance_int (key_of e)) data)"
  by (induction data)
     (simp_all add: map_filter_simps classify_def type_entry_def range_entry_def)

lemma invalid_count:
  "length (List.map_filter classify data)
     = length (filter (\<lambda>e. \<not> isinstance_int (key_of e)) data)
       + length (filter (\<lambda>k. \<not> in_range k) (typed_keys data))"
  by (induction data)
     (auto simp add: map_filter_simps classify_def typed_keys_def in_range_def)

text \<open>
  Claim C9. When the validator returns, the number of records is the count plus the
  number of invalid entries that carry an issue, and the number of invalid entries is the
  number of records that failed the type test plus the number of keys that passed it and
  lie outside the bounds.
\<close>

theorem record_accounting:
  "analyze_section_ids data = Inr st \<Longrightarrow>
     int (length data)
       = st_count st + int (length (filter (\<lambda>i. ie_issue i \<noteq> None) (st_invalid st)))
     \<and> length (st_invalid st)
       = length (filter (\<lambda>i. ie_issue i \<noteq> None) (st_invalid st))
         + length (filter (\<lambda>k. \<not> in_range k) (typed_keys data))
     \<and> length (filter (\<lambda>i. ie_issue i \<noteq> None) (st_invalid st))
       = length (filter (\<lambda>e. \<not> isinstance_int (key_of e)) data)"
proof -
  assume ok: "analyze_section_ids data = Inr st"
  then obtain k ks where keys: "typed_keys data = k # ks"
    and st: "st = \<lparr>st_count = int (length (k # ks)), st_min = min_from k ks,
                   st_max = max_from k ks, st_invalid = List.map_filter classify data\<rparr>"
    by (rule analyze_ok_keys)
  have count: "st_count st = int (length (typed_keys data))"
    by (simp add: st keys)
  have inv: "st_invalid st = List.map_filter classify data"
    by (simp add: st)
  show ?thesis
    unfolding count inv issue_count
    using length_typed_split [of data] invalid_count [of data] by simp
qed

theorem record_accounting_witness:
  "analyze_section_ids spec_example = Inr spec_example_stats
   \<and> int (length spec_example) = st_count spec_example_stats + 1
   \<and> length (st_invalid spec_example_stats) = 1 + 1"
  using record_accounting [of spec_example spec_example_stats] analyze_spec_example
  by (simp add: spec_example_stats_def typed_keys_spec_example in_range_def
      MIN_SECTION_ID_def MAX_SECTION_ID_def)

text \<open>
  Claim C8. The validator is deterministic and has no effect on its input. On a heap
  whose object at the address \<open>d\<close> is a dataset, a call returns or raises, every object
  that was in the heap is unchanged after it, the dataset among them, and a second call on
  the heap that the first one left ends the same way: both give the outcome that
  \<open>analyze_section_ids\<close> computes from the dataset, with equal count, minimum, maximum
  and invalid entries, or the same error.
\<close>

theorem validator_deterministic:
  assumes "dataset_at h d = Some data"
  shows "\<exists>out1 out2.
           analyze_heap d h = Some out1
           \<and> take (length h) (heap_of out1) = h
           \<and> dataset_at (heap_of out1) d = Some data
           \<and> analyze_heap d (heap_of out1) = Some out2
           \<and> take (length h) (heap_of out2) = h
           \<and> dataset_at (heap_of out2) d = Some data
           \<and> result_of out1 = Some (analyze_section_ids data)
           \<and> result_of out2 = result_of out1"
proof -
  from first_run [OF assms] obtain out1 ext1 where
    run1: "analyze_heap d h = Some out1" and heap1: "heap_of out1 = h @ ext1"
    and res1: "result_of out1 = Some (analyze_section_ids data)"
    by blast
  have data1: "dataset_at (heap_of out1) d = Some data"
    unfolding heap1 using assms by (rule dataset_at_extend)
  from first_run [OF data1] obtain out2 ext2 where
    run2: "analyze_heap d (heap_of out1) = Some out2"
    and heap2: "heap_of out2 = heap_of out1 @ ext2"
    and res2: "result_of out2 = Some (analyze_section_ids data)"
    by blast
  have data2: "dataset_at (heap_of out2) d = Some data"
    unfolding heap2 using data1 by (rule dataset_at_extend)
  have "take (length h) (heap_of out1) = h" "take (length h) (heap_of out2) = h"
    by (simp_all add: heap1 heap2)
  with run1 data1 run2 data2 res1 res2 show ?thesis
    by auto
qed

theorem validator_deterministic_witness:
  "\<exists>out1 out2.
     analyze_heap 3 example_heap = Some out1
     \<and> take 4 (heap_of out1) = example_heap
     \<and> analyze_heap 3 (heap_of out1) = Some out2
     \<and> result_of out1 = Some (Inr spec_example_stats)
     \<and> result_of out2 = Some (Inr spec_example_stats)"
proof -
  have len: "length example_heap = 4"
    by (simp add: example_heap_def example_records_def)
  from validator_deterministic [OF example_dataset] show ?thesis
    unfolding example_result len by metis
qed

section \<open>The reporter: evaluation and closed form\<close>

lemma show_nat_numeral:
  "show_nat (numeral k) =
     (if (numeral k :: nat) < 10 then [digit_char (numeral k)]
      else show_nat (numeral k div 10) @ [digit_char (numeral k mod 10)])"
  by (rule show_nat.simps)

lemma show_nat_0: "show_nat 0 = ''0''"
  by (simp add: show_nat.simps [of 0] digit_char_def)

lemma show_nat_1: "show_nat (Suc 0) = ''1''"
  by (simp add: show_nat.simps [of "Suc 0"] digit_char_def)

lemmas show_eval = show_int_def show_nat_numeral show_nat_0 show_nat_1 digit_char_def

lemma show_int_MIN: "show_int MIN_SECTION_ID = ''100000''"
  by (simp add: MIN_SECTION_ID_def show_eval)

lemma show_int_MAX: "show_int MAX_SECTION_ID = ''999999''"
  by (simp add: MAX_SECTION_ID_def show_eval)

lemma append_items_map: "append_items lines items = lines @ map item_line items"
  by (induction items arbitrary: lines) simp_all

lemma report_lines_cases:
  "report_lines stats =
     head_lines stats
     @ (if st_invalid stats = [] then [all_fine_line]
        else invalid_header (st_invalid stats) # map item_line (take 50 (st_invalid stats))
             @ (if length (st_invalid stats) > 50 then [truncated_line] else []))"
  by (simp add: report_lines_def append_items_map Let_def)

lemma join_cons: "ls \<noteq> [] \<Longrightarrow> join sep (l # ls) = l @ sep @ join sep ls"
  by (cases ls) simp_all

lemma head_lines_length: "length (head_lines stats) = 7"
  by (simp add: head_lines_def)

lemma head_lines_range: "head_lines stats ! 5 = ''Expected range: 100000 - 999999''"
  by (simp add: head_lines_def show_int_MIN show_int_MAX)

subsection \<open>The lines of the rendered text\<close>

lemma text_lines_nonempty: "text_lines s \<noteq> []"
  by (induction s) (auto split: list.splits)

lemma text_lines_newline_free: "newline_free s \<Longrightarrow> text_lines s = [s]"
  by (induction s) (auto simp add: newline_free_def)

lemma text_lines_append_newline:
  "text_lines (a @ CHR 0x0A # b) = text_lines a @ text_lines b"
proof (induction a)
  case Nil
  show ?case by simp
next
  case (Cons c a)
  obtain l ls where l: "text_lines a = l # ls"
    using text_lines_nonempty [of a] by (cases "text_lines a") auto
  show ?case
    by (simp add: Cons.IH l)
qed

lemma text_lines_join:
  "ls \<noteq> [] \<Longrightarrow> text_lines (join [CHR 0x0A] ls) = concat (map text_lines ls)"
proof (induction "[CHR 0x0A]" ls rule: join.induct)
  case 1
  then show ?case by simp
next
  case (2 l)
  show ?case by simp
next
  case (3 l m ls)
  then show ?case
    by (simp add: text_lines_append_newline)
qed

lemma text_lines_report:
  "text_lines (format_report stats) = concat (map text_lines (report_lines stats))"
proof -
  have "report_lines stats \<noteq> []"
    by (simp add: report_lines_cases head_lines_def)
  then show ?thesis
    by (simp add: format_report_def newline_def text_lines_join)
qed

lemma digit_char_newline: "d < 10 \<Longrightarrow> digit_char d \<noteq> CHR 0x0A"
proof -
  assume "d < 10"
  then have "''0123456789'' ! d \<in> set ''0123456789''"
    by (intro nth_mem) simp
  then show ?thesis
    by (auto simp add: digit_char_def)
qed

lemma show_nat_newline_free: "newline_free (show_nat n)"
proof (induction n rule: show_nat.induct)
  case (1 n)
  show ?case
  proof (cases "n < 10")
    case True
    then show ?thesis
      using digit_char_newline [of n]
      by (subst show_nat.simps) (simp add: newline_free_def)
  next
    case False
    then show ?thesis
      using "1.IH" digit_char_newline [of "n mod 10"]
      by (subst show_nat.simps) (simp add: newline_free_def)
  qed
qed

lemma show_int_newline_free: "newline_free (show_int i)"
  using show_nat_newline_free [of "nat i"] show_nat_newline_free [of "nat (- i)"]
  by (simp add: show_int_def newline_free_def)

section \<open>The reporter: claims\<close>

lemma head_lines_text:
  "newline_free (py_str (st_min stats)) \<Longrightarrow> newline_free (py_str (st_max stats)) \<Longrightarrow>
     concat (map text_lines (head_lines stats)) = head_lines stats"
  using show_int_newline_free [of "st_count stats"]
  by (simp add: head_lines_def text_lines_newline_free newline_free_def show_int_MIN
      show_int_MAX)

lemma item_line_text: "item_newline_free item \<Longrightarrow> text_lines (item_line item) = [item_line item]"
  by (rule text_lines_newline_free)
     (simp add: item_newline_free_def item_line_def newline_free_def)

lemma item_lines_text:
  "list_all item_newline_free items \<Longrightarrow>
     concat (map text_lines (map item_line items)) = map item_line items"
  by (induction items) (simp_all add: item_line_text)

lemma invalid_header_text: "text_lines (invalid_header items) = [invalid_header items]"
  using show_int_newline_free [of "int (length items)"]
  by (intro text_lines_newline_free) (simp add: invalid_header_def newline_free_def)

lemma is_item_line_item: "is_item_line (item_line item)"
  by (simp add: is_item_line_def item_line_def)

lemma head_lines_no_item: "filter is_item_line (head_lines stats) = []"
  by (simp add: head_lines_def is_item_line_def)

lemma invalid_header_no_item: "\<not> is_item_line (invalid_header items)"
  by (simp add: invalid_header_def is_item_line_def)

text \<open>
  Claim C5, as amended. For statistics with more than 50 invalid entries whose rendered
  values hold no newline character, the lines of the rendered report are the seven head
  lines, the line that counts the invalid entries, one line for each of the first 50
  entries in the format \<^verbatim>\<open>  - sectionId=.. courseCode=.. sectionName=.. issue=..\<close>
  (an entry without an issue renders \<^verbatim>\<open>out of range\<close>), and one truncation line: 50
  item lines and one truncation line. The reporter does not escape the values it renders.
\<close>

theorem truncated_report:
  "length (st_invalid stats) > 50 \<Longrightarrow>
   newline_free (py_str (st_min stats)) \<Longrightarrow>
   newline_free (py_str (st_max stats)) \<Longrightarrow>
   list_all item_newline_free (take 50 (st_invalid stats)) \<Longrightarrow>
     text_lines (format_report stats) =
       [''Section ID Analysis'',
        ''===================='',
        ''Total entries checked: '' @ show_int (st_count stats),
        ''Minimum sectionId: '' @ py_str (st_min stats),
        ''Maximum sectionId: '' @ py_str (st_max stats),
        ''Expected range: 100000 - 999999'',
        '''',
        ''Out-of-range or invalid section IDs (''
          @ show_int (int (length (st_invalid stats))) @ ''):'']
       @ map (\<lambda>item. ''  - sectionId='' @ py_str (ie_sectionId item)
                    @ '' courseCode='' @ py_str (ie_courseCode item)
                    @ '' sectionName='' @ py_str (ie_sectionName item)
                    @ '' issue=''
                    @ (case ie_issue item of None \<Rightarrow> ''out of range'' | Some v \<Rightarrow> py_str v))
           (take 50 (st_invalid stats))
       @ [''  ... (truncated)'']
     \<and> length (take 50 (st_invalid stats)) = 50
     \<and> length (text_lines (format_report stats)) = 8 + 50 + 1
     \<and> length (filter is_item_line (text_lines (format_report stats))) = 50
     \<and> length (filter (\<lambda>l. l = ''  ... (truncated)'') (text_lines (format_report stats))) = 1"
proof -
  assume long: "length (st_invalid stats) > 50"
    and lo: "newline_free (py_str (st_min stats))"
    and hi: "newline_free (py_str (st_max stats))"
    and items: "list_all item_newline_free (take 50 (st_invalid stats))"
  let ?items = "take 50 (st_invalid stats)"
  have item: "item_line = (\<lambda>item. ''  - sectionId='' @ py_str (ie_sectionId item)
                    @ '' courseCode='' @ py_str (ie_courseCode item)
                    @ '' sectionName='' @ py_str (ie_sectionName item)
                    @ '' issue=''
                    @ (case ie_issue item of None \<Rightarrow> ''out of range'' | Some v \<Rightarrow> py_str v))"
    by (rule ext) (simp add: item_line_def issue_text_def)
  have len: "length ?items = 50"
    using long by simp
  have lines: "report_lines stats =
       head_lines stats @ [invalid_header (st_invalid stats)]
       @ map item_line ?items @ [truncated_line]"
    using long by (auto simp add: report_lines_cases)
  have trunc: "text_lines truncated_line = [truncated_line]"
    by (simp add: truncated_line_def)
  have rendered: "text_lines (format_report stats) =
       head_lines stats @ [invalid_header (st_invalid stats)]
       @ map item_line ?items @ [truncated_line]"
    unfolding text_lines_report lines
    using head_lines_text [OF lo hi] item_lines_text [OF items]
    by (simp add: invalid_header_text trunc)
  have explicit: "text_lines (format_report stats) =
       [''Section ID Analysis'',
        ''===================='',
        ''Total entries checked: '' @ show_int (st_count stats),
        ''Minimum sectionId: '' @ py_str (st_min stats),
        ''Maximum sectionId: '' @ py_str (st_max stats),
        ''Expected range: 100000 - 999999'',
        '''',
        ''Out-of-range or invalid section IDs (''
          @ show_int (int (length (st_invalid stats))) @ ''):'']
       @ map (\<lambda>item. ''  - sectionId='' @ py_str (ie_sectionId item)
                    @ '' courseCode='' @ py_str (ie_courseCode item)
                    @ '' sectionName='' @ py_str (ie_sectionName item)
                    @ '' issue=''
                    @ (case ie_issue item of None \<Rightarrow> ''out of range'' | Some v \<Rightarrow> py_str v))
           (take 50 (st_invalid stats))
       @ [''  ... (truncated)'']"
    unfolding rendered item [symmetric]
    by (simp add: head_lines_def invalid_header_def truncated_line_def show_int_MIN
        show_int_MAX)
  have total: "length (text_lines (format_report stats)) = 8 + 50 + 1"
    unfolding rendered using len by (simp add: head_lines_length)
  have all_items: "filter is_item_line (map item_line ?items) = map item_line ?items"
    by (simp add: is_item_line_item)
  have no_trunc: "\<not> is_item_line truncated_line"
    by (simp add: is_item_line_def truncated_line_def)
  have count_items: "length (filter is_item_line (text_lines (format_report stats))) = 50"
    unfolding rendered
    using len by (simp add: head_lines_no_item invalid_header_no_item all_items no_trunc)
  have head_no_trunc: "filter (\<lambda>l. l = truncated_line) (head_lines stats) = []"
    by (simp add: head_lines_def truncated_line_def)
  have hdr_no_trunc: "invalid_header (st_invalid stats) \<noteq> truncated_line"
    by (simp add: invalid_header_def truncated_line_def)
  have items_no_trunc: "filter (\<lambda>l. l = truncated_line) (map item_line ?items) = []"
    by (simp add: filter_empty_conv item_line_def truncated_line_def)
  have count_trunc:
    "length (filter (\<lambda>l. l = ''  ... (truncated)'') (text_lines (format_report stats))) = 1"
    unfolding rendered truncated_line_def [symmetric]
    by (simp add: head_no_trunc hdr_no_trunc items_no_trunc)
  from explicit len total count_items count_trunc show ?thesis
    by (intro conjI)
qed

theorem truncated_report_witness:
  "length (st_invalid many_invalid) = 51
   \<and> length (text_lines (format_report many_invalid)) = 59
   \<and> text_lines (format_report many_invalid) ! 7 = ''Out-of-range or invalid section IDs (51):''
   \<and> text_lines (format_report many_invalid) ! 57
       = ''  - sectionId=1 courseCode=None sectionName=None issue=out of range''
   \<and> text_lines (format_report many_invalid) ! 58 = ''  ... (truncated)''
   \<and> length (filter is_item_line (text_lines (format_report many_invalid))) = 50"
proof -
  have long: "length (st_invalid many_invalid) > 50"
    by (simp add: many_invalid_def)
  have n51: "show_int 51 = ''51''" by (simp add: show_eval)
  have n1: "show_int 1 = ''1''" by (simp add: show_eval)
  have lo: "newline_free (py_str (st_min many_invalid))"
    by (simp add: many_invalid_def n1 newline_free_def)
  have hi: "newline_free (py_str (st_max many_invalid))"
    by (simp add: many_invalid_def n1 newline_free_def)
  have low: "item_newline_free low_entry"
    by (simp add: item_newline_free_def low_entry_def issue_text_def n1 newline_free_def)
  have items: "list_all item_newline_free (take 50 (st_invalid many_invalid))"
    by (simp add: many_invalid_def low list_all_iff)
  have t: "take 50 (replicate 51 low_entry) = replicate 50 low_entry" by simp
  have rendered: "text_lines (format_report many_invalid) =
       [''Section ID Analysis'',
        ''===================='',
        ''Total entries checked: 51'',
        ''Minimum sectionId: 1'',
        ''Maximum sectionId: 1'',
        ''Expected range: 100000 - 999999'',
        [],
        ''Out-of-range or invalid section IDs (51):'']
       @ replicate 50 ''  - sectionId=1 courseCode=None sectionName=None issue=out of range''
       @ [''  ... (truncated)'']"
    using truncated_report [OF long lo hi items]
    by (simp add: many_invalid_def low_entry_def n51 n1 t)
  have len: "length (st_invalid many_invalid) = 51"
    by (simp add: many_invalid_def)
  have l7: "text_lines (format_report many_invalid) ! 7
              = ''Out-of-range or invalid section IDs (51):''"
    unfolding rendered by simp
  have l57: "text_lines (format_report many_invalid) ! 57
       = ''  - sectionId=1 courseCode=None sectionName=None issue=out of range''"
    unfolding rendered by (simp add: nth_append)
  have l58: "text_lines (format_report many_invalid) ! 58 = ''  ... (truncated)''"
    unfolding rendered by (simp add: nth_append)
  have total: "length (text_lines (format_report many_invalid)) = 59"
    unfolding rendered by simp
  have count: "length (filter is_item_line (text_lines (format_report many_invalid))) = 50"
    unfolding rendered by (simp add: is_item_line_def)
  from len total l7 l57 l58 count show ?thesis
    by (intro conjI)
qed

lemma split_entry_lines:
  "text_lines (item_line split_entry) =
     [''  - sectionId=1 courseCode=CS'',
      ''  - sectionId=101 sectionName=None issue=out of range'']"
proof -
  have n1: "show_int 1 = ''1''" by (simp add: show_eval)
  have "item_line split_entry =
          ''  - sectionId=1 courseCode=CS'' @ CHR 0x0A
          # ''  - sectionId=101 sectionName=None issue=out of range''"
    by (simp add: item_line_def split_entry_def issue_text_def n1)
  then show ?thesis
    by (simp only: text_lines_append_newline)
       (simp add: text_lines_newline_free newline_free_def)
qed

lemma length_filter_concat_replicate:
  "length (filter P (concat (replicate n xs))) = n * length (filter P xs)"
  by (induction n) simp_all

text \<open>
  The claim C5 as it is written, for every statistics with more than 50 invalid entries,
  fails where a rendered value holds a newline character: for 51 entries whose course code
  is \<^verbatim>\<open>CS\<close>, a newline and \<^verbatim>\<open>  - sectionId=101\<close>, the rendered report has 109
  lines, 100 of which start as an item line does.
\<close>

theorem truncated_report_counterexample:
  "length (st_invalid newline_stats) = 51
   \<and> length (text_lines (format_report newline_stats)) = 109
   \<and> length (filter is_item_line (text_lines (format_report newline_stats))) = 100"
proof -
  have n51: "show_int 51 = ''51''" by (simp add: show_eval)
  have n1: "show_int 1 = ''1''" by (simp add: show_eval)
  have lines: "report_lines newline_stats =
       head_lines newline_stats @ [invalid_header (st_invalid newline_stats)]
       @ replicate 50 (item_line split_entry) @ [truncated_line]"
    by (simp add: report_lines_cases newline_stats_def)
  have lo: "newline_free (py_str (st_min newline_stats))"
    by (simp add: newline_stats_def n1 newline_free_def)
  have hi: "newline_free (py_str (st_max newline_stats))"
    by (simp add: newline_stats_def n1 newline_free_def)
  have trunc: "text_lines truncated_line = [truncated_line]"
    by (simp add: truncated_line_def)
  have rendered: "text_lines (format_report newline_stats) =
       head_lines newline_stats @ [invalid_header (st_invalid newline_stats)]
       @ concat (replicate 50 (text_lines (item_line split_entry))) @ [truncated_line]"
    unfolding text_lines_report lines
    using head_lines_text [OF lo hi]
    by (simp add: invalid_header_text trunc)
  have two: "length (filter is_item_line (text_lines (item_line split_entry))) = 2"
    by (simp add: split_entry_lines is_item_line_def)
  have no_trunc: "\<not> is_item_line truncated_line"
    by (simp add: is_item_line_def truncated_line_def)
  have total: "length (text_lines (format_report newline_stats)) = 109"
    unfolding rendered
    by (simp add: head_lines_length length_concat split_entry_lines sum_list_replicate)
  have items: "length (filter is_item_line (text_lines (format_report newline_stats))) = 100"
    unfolding rendered
    by (simp add: head_lines_no_item invalid_header_no_item no_trunc
        length_filter_concat_replicate two)
  have "length (st_invalid newline_stats) = 51"
    by (simp add: newline_stats_def)
  with total items show ?thesis by simp
qed

lemma report_lines_tail:
  "\<exists>rest. rest \<noteq> [] \<and> report_lines stats = head_lines stats @ rest"
  by (simp add: report_lines_cases)

lemma join_head_lines:
  assumes "rest \<noteq> []"
  shows "join [CHR 0x0A] (head_lines stats @ rest) =
       ''Section ID Analysis'' @ [CHR 0x0A]
       @ ''===================='' @ [CHR 0x0A]
       @ ''Total entries checked: '' @ show_int (st_count stats) @ [CHR 0x0A]
       @ ''Minimum sectionId: '' @ py_str (st_min stats) @ [CHR 0x0A]
       @ ''Maximum sectionId: '' @ py_str (st_max stats) @ [CHR 0x0A]
       @ ''Expected range: 100000 - 999999'' @ [CHR 0x0A]
       @ [CHR 0x0A]
       @ join [CHR 0x0A] rest"
proof -
  obtain l ls where rest: "rest = l # ls"
    using assms by (cases rest) auto
  show ?thesis
    by (simp add: head_lines_def rest show_int_MIN show_int_MAX)
qed

text \<open>
  Claim C6. For statistics without invalid entries the report is the title line, the
  underline, the count, minimum, maximum and expected-range lines, an empty line and the
  line saying that all section IDs fall within the expected range, joined by single
  newline characters with no newline at the end; the header of the itemized entries is
  not among its lines.
\<close>

theorem clean_report:
  "st_invalid stats = [] \<Longrightarrow>
     format_report stats =
       ''Section ID Analysis'' @ [CHR 0x0A]
       @ ''===================='' @ [CHR 0x0A]
       @ ''Total entries checked: '' @ show_int (st_count stats) @ [CHR 0x0A]
       @ ''Minimum sectionId: '' @ py_str (st_min stats) @ [CHR 0x0A]
       @ ''Maximum sectionId: '' @ py_str (st_max stats) @ [CHR 0x0A]
       @ ''Expected range: 100000 - 999999'' @ [CHR 0x0A]
       @ [CHR 0x0A]
       @ ''All section IDs fall within the expected range.''
     \<and> report_lines stats = head_lines stats @ [''All section IDs fall within the expected range.'']
     \<and> length (report_lines stats) = 8
     \<and> (\<forall>items. invalid_header items \<notin> set (report_lines stats))
     \<and> last (format_report stats) \<noteq> CHR 0x0A"
proof -
  assume empty: "st_invalid stats = []"
  have lines: "report_lines stats = head_lines stats @ [all_fine_line]"
    using empty by (simp add: report_lines_cases)
  have rendered: "format_report stats =
       ''Section ID Analysis'' @ [CHR 0x0A]
       @ ''===================='' @ [CHR 0x0A]
       @ ''Total entries checked: '' @ show_int (st_count stats) @ [CHR 0x0A]
       @ ''Minimum sectionId: '' @ py_str (st_min stats) @ [CHR 0x0A]
       @ ''Maximum sectionId: '' @ py_str (st_max stats) @ [CHR 0x0A]
       @ ''Expected range: 100000 - 999999'' @ [CHR 0x0A]
       @ [CHR 0x0A]
       @ ''All section IDs fall within the expected range.''"
    unfolding format_report_def lines newline_def
    by (simp only: join_head_lines [of "[all_fine_line]"] not_Cons_self2 simp_thms)
       (simp add: all_fine_line_def)
  have no_header: "\<forall>items. invalid_header items \<notin> set (report_lines stats)"
    by (simp add: lines head_lines_def all_fine_line_def invalid_header_def)
  have last_char: "last (format_report stats) \<noteq> CHR 0x0A"
    by (simp add: rendered)
  have len: "length (report_lines stats) = 8"
    by (simp add: lines head_lines_length)
  from rendered lines no_header last_char len show ?thesis
    by (simp add: all_fine_line_def)
qed

theorem clean_report_witness:
  "st_invalid clean_stats = []
   \<and> format_report clean_stats =
       ''Section ID Analysis'' @ [CHR 0x0A]
       @ ''===================='' @ [CHR 0x0A]
       @ ''Total entries checked: 1'' @ [CHR 0x0A]
       @ ''Minimum sectionId: 150000'' @ [CHR 0x0A]
       @ ''Maximum sectionId: 150000'' @ [CHR 0x0A]
       @ ''Expected range: 100000 - 999999'' @ [CHR 0x0A]
       @ [CHR 0x0A]
       @ ''All section IDs fall within the expected range.''"
proof -
  have empty: "st_invalid clean_stats = []"
    by (simp add: clean_stats_def)
  have n: "show_int 150000 = ''150000''" "show_int 1 = ''1''"
    by (simp_all add: show_eval)
  show ?thesis
    using clean_report [OF empty] by (simp add: clean_stats_def n)
qed

text \<open>
  Claim C10. The bounds are the constants 100000 and 999999, and in every rendered report
  the line after the maximum line is the text \<^verbatim>\<open>Expected range: 100000 - 999999\<close>.
\<close>

theorem expected_range_line:
  "MIN_SECTION_ID = 100000 \<and> MAX_SECTION_ID = 999999
   \<and> (\<exists>rest. format_report stats =
         ''Section ID Analysis'' @ [CHR 0x0A]
         @ ''===================='' @ [CHR 0x0A]
         @ ''Total entries checked: '' @ show_int (st_count stats) @ [CHR 0x0A]
         @ ''Minimum sectionId: '' @ py_str (st_min stats) @ [CHR 0x0A]
         @ ''Maximum sectionId: '' @ py_str (st_max stats) @ [CHR 0x0A]
         @ ''Expected range: 100000 - 999999'' @ [CHR 0x0A]
         @ rest)
   \<and> ''Expected range: 100000 - 999999'' \<in> set (text_lines (format_report stats))
   \<and> report_lines stats ! 5 = ''Expected range: 100000 - 999999''
   \<and> ''Expected range: '' @ show_int MIN_SECTION_ID @ '' - '' @ show_int MAX_SECTION_ID
       = ''Expected range: 100000 - 999999''"
proof -
  obtain rest where rest: "rest \<noteq> []" "report_lines stats = head_lines stats @ rest"
    using report_lines_tail by blast
  have "format_report stats = join [CHR 0x0A] (head_lines stats @ rest)"
    by (simp add: format_report_def newline_def rest(2))
  then have prefix: "\<exists>rest. format_report stats =
         ''Section ID Analysis'' @ [CHR 0x0A]
         @ ''===================='' @ [CHR 0x0A]
         @ ''Total entries checked: '' @ show_int (st_count stats) @ [CHR 0x0A]
         @ ''Minimum sectionId: '' @ py_str (st_min stats) @ [CHR 0x0A]
         @ ''Maximum sectionId: '' @ py_str (st_max stats) @ [CHR 0x0A]
         @ ''Expected range: 100000 - 999999'' @ [CHR 0x0A]
         @ rest"
    unfolding join_head_lines [OF rest(1)] by blast
  have line5: "report_lines stats ! 5 = ''Expected range: 100000 - 999999''"
    by (simp add: rest(2) nth_append head_lines_length head_lines_range)
  have "''Expected range: 100000 - 999999'' \<in> set (report_lines stats)"
    using head_lines_range [of stats] nth_mem [of 5 "head_lines stats"]
    by (simp add: rest(2) head_lines_length)
  moreover have "text_lines ''Expected range: 100000 - 999999''
                   = [''Expected range: 100000 - 999999'']"
    by simp
  ultimately have member:
    "''Expected range: 100000 - 999999'' \<in> set (text_lines (format_report stats))"
    unfolding text_lines_report by (auto intro!: bexI)
  have rendered: "''Expected range: '' @ show_int MIN_SECTION_ID @ '' - ''
                    @ show_int MAX_SECTION_ID = ''Expected range: 100000 - 999999''"
    by (simp add: show_int_MIN show_int_MAX)
  have bounds: "MIN_SECTION_ID = 100000" "MAX_SECTION_ID = 999999"
    by (simp_all add: MIN_SECTION_ID_def MAX_SECTION_ID_def)
  from bounds prefix member line5 rendered show ?thesis
    by (intro conjI)
qed

end
